theory Spec2Isabelle
  imports Main "HOL-Library.AList" "HOL-Library.Sublist"
begin

section \<open>Python values and exceptions\<close>

text \<open>
  The values that reach \<^verbatim>\<open>uaclient/config.py\<close>: what the YAML and JSON parsers
  build, what the environment holds, what callers pass as cache content. A dictionary is
  an association list in insertion order with pairwise distinct keys; Python takes the
  keys True and 1 for one key, the lists keep them apart. Floats, tuples, sets and byte
  strings are left out. A string is the list of the bytes of its UTF-8 encoding, taken
  to be well formed; Python 3 is the reference where the versions differ.
\<close>

datatype pyval =
    PNone
  | PBool bool
  | PInt int
  | PStr string
  | PList "pyval list"
  | PDict "(pyval \<times> pyval) list"

type_synonym pydict = "(pyval \<times> pyval) list"

text \<open>
  The exceptions the module can let through. \<open>ConfigAbsentError\<close> is the class the
  module declares (line 32); the others are Python's own. \<open>OSError\<close> stands for
  every failure of a file operation, \<open>YAMLError\<close> for a document the parser rejects.
\<close>

datatype error =
    ConfigAbsentError
  | KeyError
  | AttributeError
  | TypeError
  | ValueError
  | OSError
  | YAMLError

text \<open>Python's truth value: \<^verbatim>\<open>bool(v)\<close>, \<^verbatim>\<open>if v\<close>, \<^verbatim>\<open>not v\<close>.\<close>

fun truthy :: "pyval \<Rightarrow> bool" where
  "truthy PNone = False"
| "truthy (PBool b) = b"
| "truthy (PInt n) = (n \<noteq> 0)"
| "truthy (PStr s) = (s \<noteq> [])"
| "truthy (PList xs) = (xs \<noteq> [])"
| "truthy (PDict kvs) = (kvs \<noteq> [])"

text \<open>\<^verbatim>\<open>isinstance(v, six.string_types)\<close>\<close>

fun is_string :: "pyval \<Rightarrow> bool" where
  "is_string (PStr s) = True"
| "is_string v = False"

text \<open>Lists and dictionaries cannot be dictionary keys.\<close>

fun hashable :: "pyval \<Rightarrow> bool" where
  "hashable (PList xs) = False"
| "hashable (PDict kvs) = False"
| "hashable v = True"

section \<open>String methods\<close>

text \<open>
  The characters of a string, as iteration and slicing see them: each is the run of
  bytes that encodes one code point, whose length the first byte tells.
\<close>

definition utf8_len :: "char \<Rightarrow> nat" where
  "utf8_len c =
     (let n = (of_char c :: nat)
      in if n < 192 then 1 else if n < 224 then 2 else if n < 240 then 3 else 4)"

fun py_chars :: "string \<Rightarrow> string list" where
  "py_chars [] = []"
| "py_chars (c # cs) =
     (c # take (utf8_len c - 1) cs) # py_chars (drop (utf8_len c - 1) cs)"

text \<open>
  \<^verbatim>\<open>str.lower\<close> and \<^verbatim>\<open>str.upper\<close> follow the Unicode tables. They are parameters
  of the functions below, named \<open>lower\<close> and \<open>upper\<close>: functions from strings to
  strings of which nothing is assumed.
\<close>

definition startswith :: "string \<Rightarrow> string \<Rightarrow> bool" where
  "startswith s p = prefix p s"

text \<open>\<^verbatim>\<open>s.rstrip('/')\<close>\<close>

definition rstrip_sep :: "string \<Rightarrow> string" where
  "rstrip_sep s = rev (dropWhile (\<lambda>c. c = CHR ''/'') (rev s))"

text \<open>
  \<^verbatim>\<open>v.upper()\<close> on a value: only strings have the method, anything else raises
  AttributeError.
\<close>

fun upper_method :: "(string \<Rightarrow> string) \<Rightarrow> pyval \<Rightarrow> error + pyval" where
  "upper_method upper (PStr s) = Inr (PStr (upper s))"
| "upper_method upper v = Inl AttributeError"

section \<open>Dictionary operations\<close>

text \<open>\<^verbatim>\<open>d[k]\<close> raises KeyError on a missing key; \<^verbatim>\<open>d[k] = v\<close> replaces or appends.\<close>

definition getitem :: "pydict \<Rightarrow> pyval \<Rightarrow> error + pyval" where
  "getitem d k = (case map_of d k of None \<Rightarrow> Inl KeyError | Some v \<Rightarrow> Inr v)"

definition setitem :: "pydict \<Rightarrow> pyval \<Rightarrow> pyval \<Rightarrow> pydict" where
  "setitem d k v = AList.update k v d"

text \<open>
  \<^verbatim>\<open>d.update(other)\<close>. A dictionary is merged key by key. Any other iterable is read
  as a sequence of two-element sequences (a key and its value); an element that is not
  iterable raises TypeError, one of another length ValueError, an unhashable key
  TypeError. A value that is not iterable at all raises TypeError.
\<close>

fun pair_of :: "pyval \<Rightarrow> error + (pyval \<times> pyval)" where
  "pair_of (PList [k, v]) = Inr (k, v)"
| "pair_of (PList xs) = Inl ValueError"
| "pair_of (PStr s) =
     (case py_chars s of [a, b] \<Rightarrow> Inr (PStr a, PStr b) | _ \<Rightarrow> Inl ValueError)"
| "pair_of (PDict [(k1, v1), (k2, v2)]) = Inr (k1, k2)"
| "pair_of (PDict kvs) = Inl ValueError"
| "pair_of v = Inl TypeError"

fun update_seq :: "pydict \<Rightarrow> pyval list \<Rightarrow> error + pydict" where
  "update_seq d [] = Inr d"
| "update_seq d (x # xs) =
     (case pair_of x of
        Inl e \<Rightarrow> Inl e
      | Inr (k, v) \<Rightarrow> if hashable k then update_seq (setitem d k v) xs else Inl TypeError)"

definition update_dict :: "pydict \<Rightarrow> pydict \<Rightarrow> pydict" where
  "update_dict d other = fold (\<lambda>(k, v) acc. setitem acc k v) other d"

fun dict_update :: "pydict \<Rightarrow> pyval \<Rightarrow> error + pydict" where
  "dict_update d (PDict other) = Inr (update_dict d other)"
| "dict_update d (PList xs) = update_seq d xs"
| "dict_update d (PStr s) = update_seq d (map PStr (py_chars s))"
| "dict_update d v = Inl TypeError"

section \<open>The operating system\<close>

text \<open>
  The file system is a flat table from path strings to nodes; the process also has an
  environment (in the order \<^verbatim>\<open>os.environ.items()\<close> yields it), a working directory
  and the password database \<^verbatim>\<open>os.path.expanduser\<close> consults.
\<close>

datatype node = File string | Dir

type_synonym filesystem = "string \<rightharpoonup> node"

record os_state =
  files :: filesystem
  environ :: "(string \<times> string) list"
  cwd :: string
  pw_dir :: "string \<rightharpoonup> string"
  uid_pw_dir :: "string option"

definition os_path_exists :: "filesystem \<Rightarrow> string \<Rightarrow> bool" where
  "os_path_exists fs p = (fs p \<noteq> None)"

text \<open>\<^verbatim>\<open>os.path.join(a, b)\<close> of posixpath, for two components.\<close>

definition os_path_join :: "string \<Rightarrow> string \<Rightarrow> string" where
  "os_path_join a b =
     (if startswith b ''/'' then b
      else if a = [] \<or> last a = CHR ''/'' then a @ b
      else a @ ''/'' @ b)"

text \<open>\<^verbatim>\<open>os.path.basename(p)\<close>: what follows the last slash.\<close>

definition os_path_basename :: "string \<Rightarrow> string" where
  "os_path_basename p = rev (takeWhile (\<lambda>c. c \<noteq> CHR ''/'') (rev p))"

text \<open>
  \<^verbatim>\<open>os.path.expanduser(path)\<close> of posixpath. A path that does not start with a tilde
  is returned as it is. Otherwise the text between the tilde and the first slash names
  a user: empty, it is the current user, whose home is \<^verbatim>\<open>$HOME\<close> when set and the
  password entry of the process otherwise; an unknown user leaves the path unchanged.
\<close>

definition expanduser_str :: "os_state \<Rightarrow> string \<Rightarrow> string" where
  "expanduser_str os path =
     (if \<not> startswith path ''~'' then path
      else
        let i = 1 + length (takeWhile (\<lambda>c. c \<noteq> CHR ''/'') (drop 1 path));
            userhome =
              (if i = 1 then
                 (case map_of (environ os) ''HOME'' of
                    Some h \<Rightarrow> Some h
                  | None \<Rightarrow> uid_pw_dir os)
               else pw_dir os (take (i - 1) (drop 1 path)))
        in case userhome of
             None \<Rightarrow> path
           | Some h \<Rightarrow>
               (let r = rstrip_sep h @ drop i path in if r = [] then ''/'' else r))"

fun expanduser :: "os_state \<Rightarrow> pyval \<Rightarrow> error + pyval" where
  "expanduser os (PStr path) = Inr (PStr (expanduser_str os path))"
| "expanduser os v = Inl TypeError"

section \<open>Configuration resolution\<close>

definition DEFAULT_CONFIG_FILE :: string where
  "DEFAULT_CONFIG_FILE = ''/etc/ubuntu-advantage/uaclient.conf''"

definition BASE_AUTH_URL :: string where
  "BASE_AUTH_URL = ''https://login.ubuntu.com''"

definition BASE_SERVICE_URL :: string where
  "BASE_SERVICE_URL = ''https://uaservice.canonical.com''"

text \<open>\<^verbatim>\<open>logging.INFO\<close> is the integer 20 of Python's logging module.\<close>

definition logging_INFO :: pyval where
  "logging_INFO = PInt 20"

definition CONFIG_DEFAULTS :: pydict where
  "CONFIG_DEFAULTS =
     [(PStr ''sso_auth_url'', PStr BASE_AUTH_URL),
      (PStr ''service_url'', PStr BASE_SERVICE_URL),
      (PStr ''data_dir'', PStr ''/var/lib/ubuntu-advantage''),
      (PStr ''log_level'', logging_INFO)]"

text \<open>
  Modelled from the spec: \<^verbatim>\<open>util.load_file\<close> is not among the sources; the spec has
  it read the full content of the file. A path that is not a regular file fails.
\<close>

definition load_file :: "filesystem \<Rightarrow> string \<Rightarrow> error + string" where
  "load_file fs p = (case fs p of Some (File content) \<Rightarrow> Inr content | _ \<Rightarrow> Inl OSError)"

text \<open>
  The loop of lines 168 to 171: every variable whose name starts with \<^verbatim>\<open>UA_\<close> sets
  the key made of its lowercased name without the first three characters.
\<close>

definition env_key :: "(string \<Rightarrow> string) \<Rightarrow> string \<Rightarrow> pyval" where
  "env_key lower name = PStr (concat (drop 3 (py_chars (lower name))))"

definition env_step ::
  "(string \<Rightarrow> string) \<Rightarrow> string \<times> string \<Rightarrow> pydict \<Rightarrow> pydict" where
  "env_step lower = (\<lambda>(key, val) acc.
     if startswith key ''UA_'' then setitem acc (env_key lower key) (PStr val) else acc)"

definition env_keys :: "(string \<Rightarrow> string) \<Rightarrow> (string \<times> string) list \<Rightarrow> pydict" where
  "env_keys lower env = fold (env_step lower) env []"

text \<open>Lines 157 to 164: which file is read.\<close>

definition config_file_path :: "os_state \<Rightarrow> string option \<Rightarrow> string" where
  "config_file_path os config_path =
     (let p0 = (case config_path of
                  None \<Rightarrow> DEFAULT_CONFIG_FILE
                | Some p \<Rightarrow> if p = [] then DEFAULT_CONFIG_FILE else p);
          local_cfg = os_path_join (cwd os) (os_path_basename p0);
          p1 = (if os_path_exists (files os) local_cfg then local_cfg else p0)
      in case map_of (environ os) ''UA_CONFIG_FILE'' of
           None \<Rightarrow> p1
         | Some p \<Rightarrow> if p \<noteq> [] then p else p1)"

text \<open>Lines 166 and 167: the file, when it exists, is parsed and merged into the defaults.\<close>

definition merge_file ::
  "(string \<Rightarrow> pyval option) \<Rightarrow> filesystem \<Rightarrow> string \<Rightarrow> pydict \<Rightarrow> error + pydict" where
  "merge_file yaml_load fs config_path cfg =
     (if os_path_exists fs config_path then
        (case load_file fs config_path of
           Inl e \<Rightarrow> Inl e
         | Inr content \<Rightarrow>
             (case yaml_load content of
                None \<Rightarrow> Inl YAMLError
              | Some doc \<Rightarrow> dict_update cfg doc))
      else Inr cfg)"

text \<open>Lines 173 to 175: the two values every run rewrites.\<close>

definition normalize ::
  "(string \<Rightarrow> string) \<Rightarrow> os_state \<Rightarrow> pydict \<Rightarrow> error + pydict" where
  "normalize upper os cfg =
     (case getitem cfg (PStr ''log_level'') of
        Inl e \<Rightarrow> Inl e
      | Inr lvl \<Rightarrow>
          (case upper_method upper lvl of
             Inl e \<Rightarrow> Inl e
           | Inr up \<Rightarrow>
               (let cfg1 = setitem cfg (PStr ''log_level'') up in
                case getitem cfg1 (PStr ''data_dir'') of
                  Inl e \<Rightarrow> Inl e
                | Inr dd \<Rightarrow>
                    (case expanduser os dd of
                       Inl e \<Rightarrow> Inl e
                     | Inr ex \<Rightarrow> Inr (setitem cfg1 (PStr ''data_dir'') ex)))))"

text \<open>
  \<^verbatim>\<open>parse_config(config_path=None)\<close>. The YAML parser is a parameter: it maps the
  text of a file to the value it denotes, or to \<open>None\<close> when it rejects the text.
\<close>

definition parse_config ::
  "(string \<Rightarrow> string) \<Rightarrow> (string \<Rightarrow> string) \<Rightarrow> (string \<Rightarrow> pyval option)
     \<Rightarrow> os_state \<Rightarrow> string option \<Rightarrow> error + pydict" where
  "parse_config lower upper yaml_load os config_path =
     (case merge_file yaml_load (files os) (config_file_path os config_path) CONFIG_DEFAULTS of
        Inl e \<Rightarrow> Inl e
      | Inr cfg \<Rightarrow> normalize upper os (update_dict cfg (env_keys lower (environ os))))"

section \<open>The cache store\<close>

text \<open>
  Modelled from the spec: \<^verbatim>\<open>util.write_file\<close> is not among the sources; the spec
  has it write the full content to the path, fully overwriting any prior content. In the
  flat table a write fails only when the path is a directory; permissions and disk
  space are not modelled.
\<close>

definition write_file :: "filesystem \<Rightarrow> string \<Rightarrow> string \<Rightarrow> error + filesystem" where
  "write_file fs p content =
     (case fs p of Some Dir \<Rightarrow> Inl OSError | _ \<Rightarrow> Inr (fs(p \<mapsto> File content)))"

text \<open>
  Modelled from the spec: \<^verbatim>\<open>util.maybe_parse_json\<close> is not among the sources; the
  spec has a cache read attempt JSON parsing and fall back to the raw text when the
  content does not parse, without an error. The JSON parser is a parameter: it maps a
  text to the value it denotes, or to \<open>None\<close> when it rejects the text.
\<close>

definition maybe_parse_json :: "(string \<Rightarrow> pyval option) \<Rightarrow> string \<Rightarrow> pyval" where
  "maybe_parse_json json_loads content =
     (case json_loads content of None \<Rightarrow> PNone | Some v \<Rightarrow> v)"

text \<open>
  \<^verbatim>\<open>os.makedirs(d)\<close>, called on a path that does not exist: the empty path fails,
  any other becomes a directory of the table.
\<close>

definition os_makedirs :: "filesystem \<Rightarrow> string \<Rightarrow> error + filesystem" where
  "os_makedirs fs d = (if d = [] then Inl OSError else Inr (fs(d \<mapsto> Dir)))"

text \<open>
  An instance of \<^verbatim>\<open>UAConfig\<close>: the resolved configuration and the three memo
  attributes \<^verbatim>\<open>_contracts\<close>, \<^verbatim>\<open>_entitlements\<close> and \<^verbatim>\<open>_machine_token\<close>, which the
  class initialises to None.
\<close>

record UAConfig =
  cfg :: pydict
  priv_contracts :: pyval
  priv_entitlements :: pyval
  priv_machine_token :: pyval

definition new_instance :: "pydict \<Rightarrow> UAConfig" where
  "new_instance c =
     \<lparr>cfg = c, priv_contracts = PNone, priv_entitlements = PNone, priv_machine_token = PNone\<rparr>"

text \<open>\<^verbatim>\<open>UAConfig(cfg=None)\<close>: a non-empty mapping is taken as it is, else the configuration is resolved.\<close>

definition init ::
  "(string \<Rightarrow> string) \<Rightarrow> (string \<Rightarrow> string) \<Rightarrow> (string \<Rightarrow> pyval option)
     \<Rightarrow> os_state \<Rightarrow> pydict option \<Rightarrow> error + UAConfig" where
  "init lower upper yaml_load os c =
     (case c of
        Some d \<Rightarrow>
          (if d \<noteq> [] then Inr (new_instance d)
           else map_sum id new_instance (parse_config lower upper yaml_load os None))
      | None \<Rightarrow> map_sum id new_instance (parse_config lower upper yaml_load os None))"

definition data_paths :: "(string \<times> string) list" where
  "data_paths =
     [(''accounts'', ''accounts.json''),
      (''account-contracts'', ''account-contracts.json''),
      (''account-users'', ''account-users.json''),
      (''machine-contracts'', ''machine-contracts.json''),
      (''machine-access-esm'', ''machine-access-esm.json''),
      (''machine-access-fips'', ''machine-access-fips.json''),
      (''machine-access-fips-updates'', ''machine-access-fips-updates.json''),
      (''machine-access-livepatch'', ''machine-access-livepatch.json''),
      (''machine-detach'', ''machine-detach.json''),
      (''machine-token'', ''machine-token.json''),
      (''macaroon'', ''sso-macaroon.json''),
      (''oauth'', ''sso-oauth.json'')]"

definition contract_url :: "UAConfig \<Rightarrow> error + pyval" where
  "contract_url self = getitem (cfg self) (PStr ''contract_url'')"

definition data_dir :: "UAConfig \<Rightarrow> error + pyval" where
  "data_dir self = getitem (cfg self) (PStr ''data_dir'')"

text \<open>\<^verbatim>\<open>os.path.join(d, name)\<close> where \<open>d\<close> is any value: one that is not a string raises.\<close>

fun join_value :: "pyval \<Rightarrow> string \<Rightarrow> error + pyval" where
  "join_value (PStr d) name = Inr (PStr (os_path_join d name))"
| "join_value v name = Inl TypeError"

text \<open>
  \<^verbatim>\<open>data_path(key)\<close>. The key is a string or None; \<^verbatim>\<open>not key\<close> holds of None and of
  the empty string.
\<close>

definition data_path :: "UAConfig \<Rightarrow> string option \<Rightarrow> error + pyval" where
  "data_path self key =
     (case key of
        None \<Rightarrow> getitem (cfg self) (PStr ''data_dir'')
      | Some k \<Rightarrow>
          if k = [] then getitem (cfg self) (PStr ''data_dir'')
          else
            (case getitem (cfg self) (PStr ''data_dir'') of
               Inl e \<Rightarrow> Inl e
             | Inr d \<Rightarrow>
                 (case map_of data_paths k of
                    Some filename \<Rightarrow> join_value d filename
                  | None \<Rightarrow> join_value d k)))"

text \<open>
  \<^verbatim>\<open>read_cache(key)\<close>, with the file system passed in and handed back. A path that
  is not a string raises (an integer would name a file descriptor, which the table does
  not have).
\<close>

definition read_cache ::
  "(string \<Rightarrow> pyval option) \<Rightarrow> UAConfig \<Rightarrow> string option \<Rightarrow> filesystem
     \<Rightarrow> (error + pyval) \<times> filesystem" where
  "read_cache json_loads self key fs =
     (case data_path self key of
        Inl e \<Rightarrow> (Inl e, fs)
      | Inr (PStr cache_path) \<Rightarrow>
          if \<not> os_path_exists fs cache_path then (Inr PNone, fs)
          else
            (case load_file fs cache_path of
               Inl e \<Rightarrow> (Inl e, fs)
             | Inr content \<Rightarrow>
                 (let json_content = maybe_parse_json json_loads content
                  in (Inr (if truthy json_content then json_content else PStr content), fs)))
      | Inr v \<Rightarrow> (Inl TypeError, fs))"

text \<open>
  Lines 138 and 139: content that is not a string is serialised. The JSON serialiser is
  a parameter: it maps a value to its text, or to \<open>None\<close> when the value has none.
\<close>

definition content_text :: "(pyval \<Rightarrow> string option) \<Rightarrow> pyval \<Rightarrow> error + string" where
  "content_text json_dumps content =
     (case content of
        PStr s \<Rightarrow> Inr s
      | v \<Rightarrow> (case json_dumps v of None \<Rightarrow> Inl TypeError | Some s \<Rightarrow> Inr s))"

text \<open>
  \<^verbatim>\<open>write_cache(key, content)\<close>. The file system handed back is the one the call
  leaves behind, also when it raises after the directory was made. As in \<open>read_cache\<close>,
  a directory or path that is not a string raises.
\<close>

definition write_cache ::
  "(pyval \<Rightarrow> string option) \<Rightarrow> UAConfig \<Rightarrow> string option \<Rightarrow> pyval \<Rightarrow> filesystem
     \<Rightarrow> (error + unit) \<times> filesystem" where
  "write_cache json_dumps self key content fs =
     (case data_dir self of
        Inl e \<Rightarrow> (Inl e, fs)
      | Inr (PStr d) \<Rightarrow>
          (case (if \<not> os_path_exists fs d then os_makedirs fs d else Inr fs) of
             Inl e \<Rightarrow> (Inl e, fs)
           | Inr fs1 \<Rightarrow>
               (case data_path self key of
                  Inl e \<Rightarrow> (Inl e, fs1)
                | Inr (PStr filepath) \<Rightarrow>
                    (case content_text json_dumps content of
                       Inl e \<Rightarrow> (Inl e, fs1)
                     | Inr text \<Rightarrow>
                         (case write_file fs1 filepath text of
                            Inl e \<Rightarrow> (Inl e, fs1)
                          | Inr fs2 \<Rightarrow> (Inr (), fs2)))
                | Inr v \<Rightarrow> (Inl TypeError, fs1)))
      | Inr v \<Rightarrow> (Inl TypeError, fs))"

text \<open>
  The property \<^verbatim>\<open>machine_token\<close>: the memo is read again as long as it is falsy, and
  the instance handed back carries what was read.
\<close>

definition machine_token ::
  "(string \<Rightarrow> pyval option) \<Rightarrow> UAConfig \<Rightarrow> filesystem
     \<Rightarrow> (error + pyval) \<times> UAConfig \<times> filesystem" where
  "machine_token json_loads self fs =
     (if \<not> truthy (priv_machine_token self) then
        (case read_cache json_loads self (Some ''machine-token'') fs of
           (Inl e, fs1) \<Rightarrow> (Inl e, self, fs1)
         | (Inr v, fs1) \<Rightarrow> (Inr v, self\<lparr>priv_machine_token := v\<rparr>, fs1))
      else (Inr (priv_machine_token self), self, fs))"

definition is_attached ::
  "(string \<Rightarrow> pyval option) \<Rightarrow> UAConfig \<Rightarrow> filesystem
     \<Rightarrow> (error + bool) \<times> UAConfig \<times> filesystem" where
  "is_attached json_loads self fs =
     (case machine_token json_loads self fs of
        (Inl e, self1, fs1) \<Rightarrow> (Inl e, self1, fs1)
      | (Inr token, self1, fs1) \<Rightarrow> (Inr (truthy token), self1, fs1))"

section \<open>Sample library functions and sample machines\<close>

text \<open>
  Case conversion of the ASCII letters, every other byte left as it is: what
  \<^verbatim>\<open>str.lower\<close> and \<^verbatim>\<open>str.upper\<close> do on a string of ASCII characters. The examples
  below use them on such strings only.
\<close>

definition ascii_lower_char :: "char \<Rightarrow> char" where
  "ascii_lower_char c =
     (case map_of (zip ''ABCDEFGHIJKLMNOPQRSTUVWXYZ'' ''abcdefghijklmnopqrstuvwxyz'') c of
        Some l \<Rightarrow> l
      | None \<Rightarrow> c)"

definition ascii_upper_char :: "char \<Rightarrow> char" where
  "ascii_upper_char c =
     (case map_of (zip ''abcdefghijklmnopqrstuvwxyz'' ''ABCDEFGHIJKLMNOPQRSTUVWXYZ'') c of
        Some u \<Rightarrow> u
      | None \<Rightarrow> c)"

definition ascii_lower :: "string \<Rightarrow> string" where
  "ascii_lower s = map ascii_lower_char s"

definition ascii_upper :: "string \<Rightarrow> string" where
  "ascii_upper s = map ascii_upper_char s"

text \<open>
  Fragments of the YAML and JSON codecs, enough to run the functions above on example
  files: each agrees with the library on the texts and values it lists and rejects
  everything else.
\<close>

definition sample_yaml_load :: "string \<Rightarrow> pyval option" where
  "sample_yaml_load text =
     map_of
       [(''log_level: info'', PDict [(PStr ''log_level'', PStr ''info'')]),
        (''{log_level: info, data_dir: /tmp/ua}'',
         PDict [(PStr ''log_level'', PStr ''info''), (PStr ''data_dir'', PStr ''/tmp/ua'')])]
       text"

definition quoted :: "string \<Rightarrow> string" where
  "quoted s = CHR 0x22 # s @ [CHR 0x22]"

definition sample_json_table :: "(pyval \<times> string) list" where
  "sample_json_table =
     [(PNone, ''null''),
      (PBool False, ''false''),
      (PInt 0, ''0''),
      (PStr [], quoted []),
      (PList [], ''[]''),
      (PDict [], ''{}''),
      (PList [PInt 1, PInt 2], ''[1, 2]''),
      (PDict [(PStr ''machineToken'', PStr ''t0k3n'')],
       ''{'' @ quoted ''machineToken'' @ '': '' @ quoted ''t0k3n'' @ ''}'')]"

definition sample_json_dumps :: "pyval \<Rightarrow> string option" where
  "sample_json_dumps v = map_of sample_json_table v"

definition sample_json_loads :: "string \<Rightarrow> pyval option" where
  "sample_json_loads text = map_of (map (\<lambda>(v, t). (t, v)) sample_json_table) text"

text \<open>
  A machine whose only file is the system configuration file, with three \<^verbatim>\<open>UA_\<close>
  variables, two of which name the same key.
\<close>

definition sample_os :: os_state where
  "sample_os =
     \<lparr>files = [DEFAULT_CONFIG_FILE \<mapsto> File ''log_level: info''],
      environ =
        [(''HOME'', ''/root''),
         (''UA_SERVICE_URL'', ''https://example.test''),
         (''UA_log_level'', ''warning''),
         (''UA_LOG_LEVEL'', ''debug'')],
      cwd = ''/root'',
      pw_dir = Map.empty,
      uid_pw_dir = Some ''/root''\<rparr>"

definition sample_cfg :: pydict where
  "sample_cfg =
     [(PStr ''sso_auth_url'', PStr ''https://login.ubuntu.com''),
      (PStr ''service_url'', PStr ''https://example.test''),
      (PStr ''data_dir'', PStr ''/var/lib/ubuntu-advantage''),
      (PStr ''log_level'', PStr ''DEBUG'')]"

text \<open>A machine with no file and no variable at all.\<close>

definition bare_os :: os_state where
  "bare_os =
     \<lparr>files = Map.empty, environ = [], cwd = ''/root'', pw_dir = Map.empty,
      uid_pw_dir = None\<rparr>"

text \<open>The store after the list \<open>[1, 2]\<close> was cached under \<open>accounts\<close> on an empty disk.\<close>

definition sample_store :: filesystem where
  "sample_store =
     [''/var/lib/ubuntu-advantage'' \<mapsto> Dir,
      ''/var/lib/ubuntu-advantage/accounts.json'' \<mapsto> File ''[1, 2]'']"

text \<open>
  A machine whose configuration file sets two keys and whose environment sets a third,
  and what it resolves to: one value from each layer, the two rewritten ones from the file.
\<close>

definition layered_os :: os_state where
  "layered_os =
     \<lparr>files = [DEFAULT_CONFIG_FILE \<mapsto> File ''{log_level: info, data_dir: /tmp/ua}''],
      environ = [(''HOME'', ''/root''), (''UA_SERVICE_URL'', ''https://example.test'')],
      cwd = ''/root'',
      pw_dir = Map.empty,
      uid_pw_dir = Some ''/root''\<rparr>"

definition layered_cfg :: pydict where
  "layered_cfg =
     [(PStr ''sso_auth_url'', PStr ''https://login.ubuntu.com''),
      (PStr ''service_url'', PStr ''https://example.test''),
      (PStr ''data_dir'', PStr ''/tmp/ua''),
      (PStr ''log_level'', PStr ''INFO'')]"

text \<open>The store after a token was cached under \<open>machine-token\<close> on an empty disk.\<close>

definition token_store :: filesystem where
  "token_store =
     [''/var/lib/ubuntu-advantage'' \<mapsto> Dir,
      ''/var/lib/ubuntu-advantage/machine-token.json'' \<mapsto>
        File (''{'' @ quoted ''machineToken'' @ '': '' @ quoted ''t0k3n'' @ ''}'')]"

text \<open>
  A machine with no file and three \<^verbatim>\<open>UA_\<close> variables, two of which differ in case
  only, and what it resolves to.
\<close>

definition clash_os :: os_state where
  "clash_os =
     bare_os\<lparr>environ :=
       [(''UA_LOG_LEVEL'', ''debug''), (''UA_FOO'', ''one''), (''UA_foo'', ''two'')]\<rparr>"

definition clash_cfg :: pydict where
  "clash_cfg =
     [(PStr ''sso_auth_url'', PStr ''https://login.ubuntu.com''),
      (PStr ''service_url'', PStr ''https://uaservice.canonical.com''),
      (PStr ''data_dir'', PStr ''/var/lib/ubuntu-advantage''),
      (PStr ''log_level'', PStr ''DEBUG''),
      (PStr ''foo'', PStr ''two'')]"

section \<open>Facts about dictionaries and raised errors\<close>

lemmas string_defs =
  startswith_def ascii_lower_def ascii_lower_char_def ascii_upper_def ascii_upper_char_def
  utf8_len_def

lemma keys_setitem: "fst ` set (setitem d k v) = insert k (fst ` set d)"
  by (simp add: setitem_def dom_update)

lemma map_of_setitem: "map_of (setitem d k v) = (map_of d)(k \<mapsto> v)"
  by (simp add: setitem_def update_conv')

lemma keys_update_dict: "fst ` set d \<subseteq> fst ` set (update_dict d other)"
  unfolding update_dict_def
proof (induction other arbitrary: d)
  case Nil
  then show ?case by simp
next
  case (Cons p other)
  obtain k v where p: "p = (k, v)" by (cases p)
  have "fst ` set d \<subseteq> fst ` set (setitem d k v)"
    by (auto simp: keys_setitem)
  also have "\<dots> \<subseteq> fst ` set (fold (\<lambda>(k, v) acc. setitem acc k v) other (setitem d k v))"
    by (rule Cons.IH)
  finally show ?case by (simp add: p)
qed

lemma keys_update_seq: "update_seq d xs = Inr d' \<Longrightarrow> fst ` set d \<subseteq> fst ` set d'"
proof (induction xs arbitrary: d)
  case Nil
  then show ?case by simp
next
  case (Cons x xs)
  from Cons.prems obtain k v where kv: "pair_of x = Inr (k, v)" "hashable k"
    and rest: "update_seq (setitem d k v) xs = Inr d'"
    by (auto split: sum.splits if_splits)
  have "fst ` set d \<subseteq> fst ` set (setitem d k v)"
    by (auto simp: keys_setitem)
  also have "\<dots> \<subseteq> fst ` set d'"
    using rest by (rule Cons.IH)
  finally show ?case .
qed

lemma keys_dict_update:
  assumes "dict_update d v = Inr d'"
  shows "fst ` set d \<subseteq> fst ` set d'"
proof (cases v)
  case (PDict other)
  with assms show ?thesis using keys_update_dict [of d other] by simp
qed (use assms in \<open>auto dest: keys_update_seq\<close>)

lemma keys_merge_file:
  "merge_file yaml_load fs p d = Inr d' \<Longrightarrow> fst ` set d \<subseteq> fst ` set d'"
  unfolding merge_file_def
  by (auto split: if_splits sum.splits option.splits dest: keys_dict_update)

lemma keys_normalize:
  assumes "normalize upper os d = Inr d'"
  shows "fst ` set d \<subseteq> fst ` set d'"
proof -
  from assms obtain up ex where
    "d' = setitem (setitem d (PStr ''log_level'') up) (PStr ''data_dir'') ex"
    unfolding normalize_def Let_def by (auto split: sum.splits)
  then have "fst ` set d' = insert (PStr ''data_dir'') (insert (PStr ''log_level'') (fst ` set d))"
    by (simp add: keys_setitem)
  then show ?thesis by blast
qed

lemma pair_of_error: "pair_of x = Inl e \<Longrightarrow> e = ValueError \<or> e = TypeError"
  by (induction x rule: pair_of.induct) (auto split: list.splits)

lemma update_seq_error: "update_seq d xs = Inl e \<Longrightarrow> e = ValueError \<or> e = TypeError"
proof (induction xs arbitrary: d)
  case Nil
  then show ?case by simp
next
  case (Cons x xs)
  then show ?case
    by (auto split: sum.splits if_splits dest: pair_of_error)
qed

lemma dict_update_error: "dict_update d v = Inl e \<Longrightarrow> e = ValueError \<or> e = TypeError"
  by (cases v) (auto dest: update_seq_error)

lemma load_file_error: "load_file fs p = Inl e \<Longrightarrow> e = OSError"
  by (auto simp: load_file_def split: option.splits node.splits)

lemma merge_file_error:
  "merge_file yaml_load fs p d = Inl e \<Longrightarrow> e \<in> {OSError, YAMLError, ValueError, TypeError}"
  unfolding merge_file_def
  by (auto split: if_splits sum.splits option.splits dest: dict_update_error load_file_error)

lemma upper_method_error: "upper_method upper v = Inl e \<Longrightarrow> e = AttributeError"
  by (cases v) auto

lemma expanduser_error: "expanduser os v = Inl e \<Longrightarrow> e = TypeError"
  by (cases v) auto

lemma getitem_error: "getitem d k = Inl e \<Longrightarrow> e = KeyError"
  by (auto simp: getitem_def split: option.splits)

lemma normalize_error:
  "normalize upper os d = Inl e \<Longrightarrow> e \<in> {KeyError, AttributeError, TypeError}"
  unfolding normalize_def Let_def
  by (auto split: sum.splits dest: getitem_error upper_method_error expanduser_error)

lemma update_dict_Cons:
  "update_dict d ((k, v) # other) = update_dict (setitem d k v) other"
  by (simp add: update_dict_def)

lemma update_dict_miss:
  "k \<notin> fst ` set other \<Longrightarrow> map_of (update_dict d other) k = map_of d k"
proof (induction other arbitrary: d)
  case Nil
  then show ?case by (simp add: update_dict_def)
next
  case (Cons p other)
  then show ?case
    by (cases p) (auto simp: update_dict_Cons map_of_setitem)
qed

lemma update_dict_hit:
  "distinct (map fst other) \<Longrightarrow> map_of other k = Some v \<Longrightarrow>
     map_of (update_dict d other) k = Some v"
proof (induction other arbitrary: d)
  case Nil
  then show ?case by simp
next
  case (Cons p other)
  obtain k' v' where p: "p = (k', v')" by (cases p)
  show ?case
  proof (cases "k = k'")
    case True
    with Cons.prems p have "v' = v" and "k \<notin> fst ` set other" by auto
    then show ?thesis
      using True p by (simp add: update_dict_Cons update_dict_miss map_of_setitem)
  next
    case False
    with Cons.prems p have "distinct (map fst other)" and "map_of other k = Some v" by auto
    then show ?thesis
      using p by (simp add: update_dict_Cons Cons.IH)
  qed
qed

lemma distinct_setitem: "distinct (map fst d) \<Longrightarrow> distinct (map fst (setitem d k v))"
  by (simp add: setitem_def distinct_update)

lemma distinct_env_fold:
  "distinct (map fst acc) \<Longrightarrow> distinct (map fst (fold (env_step lower) env acc))"
  by (induction env arbitrary: acc) (auto simp: env_step_def distinct_setitem)

lemma distinct_env_keys: "distinct (map fst (env_keys lower env))"
  by (simp add: env_keys_def distinct_env_fold)

lemma env_fold_miss:
  "\<forall>(n, w) \<in> set env. startswith n ''UA_'' \<longrightarrow> env_key lower n \<noteq> k \<Longrightarrow>
     map_of (fold (env_step lower) env acc) k = map_of acc k"
  by (induction env arbitrary: acc) (auto simp: env_step_def map_of_setitem)

lemma map_of_env_keys_last:
  assumes "env = pre @ (name, v) # post" and "startswith name ''UA_''"
    and "\<forall>(n, w) \<in> set post. startswith n ''UA_'' \<longrightarrow> env_key lower n \<noteq> env_key lower name"
  shows "map_of (env_keys lower env) (env_key lower name) = Some (PStr v)"
proof -
  have "map_of (env_keys lower env) (env_key lower name) =
          map_of (env_step lower (name, v) (fold (env_step lower) pre [])) (env_key lower name)"
    using assms(1,3) by (simp add: env_keys_def env_fold_miss)
  also have "\<dots> = Some (PStr v)"
    using assms(2) by (simp add: env_step_def map_of_setitem)
  finally show ?thesis .
qed

lemma map_of_normalize:
  assumes "normalize upper os d = Inr c"
  shows "k \<noteq> PStr ''log_level'' \<Longrightarrow> k \<noteq> PStr ''data_dir'' \<Longrightarrow> map_of c k = map_of d k"
    and "map_of d (PStr ''log_level'') = Some (PStr s) \<Longrightarrow>
           map_of c (PStr ''log_level'') = Some (PStr (upper s))"
    and "map_of d (PStr ''data_dir'') = Some (PStr p) \<Longrightarrow>
           map_of c (PStr ''data_dir'') = Some (PStr (expanduser_str os p))"
proof -
  from assms obtain lvl up dd ex where
    l: "map_of d (PStr ''log_level'') = Some lvl" and u: "upper_method upper lvl = Inr up"
    and dd: "map_of (setitem d (PStr ''log_level'') up) (PStr ''data_dir'') = Some dd"
    and e: "expanduser os dd = Inr ex"
    and c: "c = setitem (setitem d (PStr ''log_level'') up) (PStr ''data_dir'') ex"
    unfolding normalize_def Let_def getitem_def
    by (auto split: sum.splits option.splits)
  show "k \<noteq> PStr ''log_level'' \<Longrightarrow> k \<noteq> PStr ''data_dir'' \<Longrightarrow> map_of c k = map_of d k"
    by (simp add: c map_of_setitem)
  show "map_of c (PStr ''log_level'') = Some (PStr (upper s))"
    if "map_of d (PStr ''log_level'') = Some (PStr s)"
    using that l u by (simp add: c map_of_setitem)
  show "map_of c (PStr ''data_dir'') = Some (PStr (expanduser_str os p))"
    if "map_of d (PStr ''data_dir'') = Some (PStr p)"
  proof -
    from that dd have "dd = PStr p" by (simp add: map_of_setitem)
    with e have "ex = PStr (expanduser_str os p)" by simp
    then show ?thesis by (simp add: c map_of_setitem)
  qed
qed

lemma env_fold_no_prefix:
  "\<forall>(n, v) \<in> set env. \<not> startswith n ''UA_'' \<Longrightarrow> fold (env_step lower) env acc = acc"
  by (induction env arbitrary: acc) (auto simp: env_step_def)

lemma normalize_defaults: "normalize upper os CONFIG_DEFAULTS = Inl AttributeError"
  by (simp add: normalize_def getitem_def CONFIG_DEFAULTS_def logging_INFO_def)

lemma map_of_update_dict:
  assumes "distinct (map fst other)"
  shows "map_of (update_dict d other) k =
           (case map_of other k of Some v \<Rightarrow> Some v | None \<Rightarrow> map_of d k)"
proof (cases "map_of other k")
  case None
  then have "k \<notin> fst ` set other" by (simp add: map_of_eq_None_iff)
  with None show ?thesis by (simp add: update_dict_miss)
next
  case (Some v)
  with assms show ?thesis by (simp add: update_dict_hit)
qed

lemma env_keys_miss:
  assumes "\<forall>(n, w) \<in> set env. startswith n ''UA_'' \<longrightarrow> env_key lower n \<noteq> k"
  shows "map_of (update_dict d (env_keys lower env)) k = map_of d k"
proof -
  from assms have "map_of (env_keys lower env) k = None"
    by (simp add: env_keys_def env_fold_miss)
  then show ?thesis
    by (simp add: map_of_update_dict distinct_env_keys)
qed

lemma merge_file_absent:
  "\<not> os_path_exists fs p \<Longrightarrow> merge_file yaml_load fs p d = Inr d"
  by (simp add: merge_file_def)

lemma merge_file_dict:
  assumes "os_path_exists fs p" and "load_file fs p = Inr content"
    and "yaml_load content = Some (PDict doc)"
  shows "merge_file yaml_load fs p d = Inr (update_dict d doc)"
  using assms by (simp add: merge_file_def)

lemma normalize_value:
  assumes "normalize upper os d = Inr c" and "map_of d k = Some x"
  shows "\<exists>y. (if k = PStr ''log_level'' then upper_method upper x
              else if k = PStr ''data_dir'' then expanduser os x else Inr x) = Inr y
             \<and> map_of c k = Some y"
proof -
  from assms(1) obtain lvl up dd ex where
    l: "map_of d (PStr ''log_level'') = Some lvl" and u: "upper_method upper lvl = Inr up"
    and dd: "map_of (setitem d (PStr ''log_level'') up) (PStr ''data_dir'') = Some dd"
    and e: "expanduser os dd = Inr ex"
    and c: "c = setitem (setitem d (PStr ''log_level'') up) (PStr ''data_dir'') ex"
    unfolding normalize_def Let_def getitem_def
    by (auto split: sum.splits option.splits)
  show ?thesis
  proof (cases "k = PStr ''log_level''")
    case True
    with assms(2) l have "x = lvl" by simp
    with True u show ?thesis by (simp add: c map_of_setitem)
  next
    case False
    show ?thesis
    proof (cases "k = PStr ''data_dir''")
      case True
      with assms(2) dd have "dd = x" by (simp add: map_of_setitem)
      with True e show ?thesis by (simp add: c map_of_setitem)
    next
      case other: False
      with False assms(2) show ?thesis by (simp add: c map_of_setitem)
    qed
  qed
qed

section \<open>Running the sample machine\<close>

lemmas sample_json_defs =
  sample_json_dumps_def sample_json_loads_def sample_json_table_def quoted_def

lemmas default_instance_defs =
  new_instance_def getitem_def CONFIG_DEFAULTS_def data_paths_def os_path_join_def
  startswith_def

lemma parse_config_sample:
  "parse_config ascii_lower ascii_upper sample_yaml_load sample_os None = Inr sample_cfg"
  by (simp add: parse_config_def merge_file_def config_file_path_def os_path_exists_def
      os_path_join_def os_path_basename_def load_file_def sample_yaml_load_def
      env_keys_def env_step_def env_key_def update_dict_def normalize_def getitem_def setitem_def
      CONFIG_DEFAULTS_def logging_INFO_def DEFAULT_CONFIG_FILE_def BASE_AUTH_URL_def
      BASE_SERVICE_URL_def expanduser_str_def sample_os_def sample_cfg_def string_defs)

lemma parse_config_clash:
  "parse_config ascii_lower ascii_upper sample_yaml_load clash_os None = Inr clash_cfg"
  by (simp add: parse_config_def merge_file_def config_file_path_def os_path_exists_def
      os_path_join_def os_path_basename_def env_keys_def env_step_def env_key_def
      update_dict_def normalize_def getitem_def setitem_def CONFIG_DEFAULTS_def
      logging_INFO_def DEFAULT_CONFIG_FILE_def BASE_AUTH_URL_def BASE_SERVICE_URL_def
      expanduser_str_def clash_os_def clash_cfg_def bare_os_def string_defs)

lemma parse_config_layered:
  "parse_config ascii_lower ascii_upper sample_yaml_load layered_os None = Inr layered_cfg"
  by (simp add: parse_config_def merge_file_def config_file_path_def os_path_exists_def
      os_path_join_def os_path_basename_def load_file_def sample_yaml_load_def
      env_keys_def env_step_def env_key_def update_dict_def normalize_def getitem_def setitem_def
      CONFIG_DEFAULTS_def logging_INFO_def DEFAULT_CONFIG_FILE_def BASE_AUTH_URL_def
      BASE_SERVICE_URL_def expanduser_str_def layered_os_def layered_cfg_def string_defs)

lemma layered_file:
  "os_path_exists (files layered_os) (config_file_path layered_os None)"
  "load_file (files layered_os) (config_file_path layered_os None) =
     Inr ''{log_level: info, data_dir: /tmp/ua}''"
  "sample_yaml_load ''{log_level: info, data_dir: /tmp/ua}'' =
     Some (PDict [(PStr ''log_level'', PStr ''info''), (PStr ''data_dir'', PStr ''/tmp/ua'')])"
  by (simp_all add: config_file_path_def os_path_exists_def os_path_join_def
      os_path_basename_def load_file_def sample_yaml_load_def DEFAULT_CONFIG_FILE_def
      layered_os_def startswith_def)

section \<open>Configuration resolution: the claims\<close>

text \<open>
  Claim C1 says that with no configuration file and no \<^verbatim>\<open>UA_\<close> variable the result
  is the default mapping with \<open>log_level\<close> uppercased. The default \<open>log_level\<close> is
  the integer \<^verbatim>\<open>logging.INFO\<close>, which has no \<^verbatim>\<open>upper\<close> method: whenever the
  chosen file does not exist and no variable starts with \<^verbatim>\<open>UA_\<close>, \<open>parse_config\<close>
  raises AttributeError, whatever the YAML parser is.
\<close>

theorem parse_config_defaults_only_raises:
  assumes "\<not> os_path_exists (files os) (config_file_path os config_path)"
    and "\<forall>(n, v) \<in> set (environ os). \<not> startswith n ''UA_''"
  shows "parse_config lower upper yaml_load os config_path = Inl AttributeError"
proof -
  have "merge_file yaml_load (files os) (config_file_path os config_path) CONFIG_DEFAULTS =
          Inr CONFIG_DEFAULTS"
    using assms(1) by (simp add: merge_file_def)
  moreover have "env_keys lower (environ os) = []"
    using assms(2) by (simp add: env_keys_def env_fold_no_prefix)
  ultimately show ?thesis
    by (simp add: parse_config_def update_dict_def normalize_defaults)
qed

theorem parse_config_defaults_only_raises_witness:
  "\<not> os_path_exists (files bare_os) (config_file_path bare_os None)
   \<and> environ bare_os = []
   \<and> parse_config ascii_lower ascii_upper sample_yaml_load bare_os None = Inl AttributeError"
proof -
  have f: "\<not> os_path_exists (files bare_os) (config_file_path bare_os None)"
    by (simp add: os_path_exists_def bare_os_def)
  have e: "environ bare_os = []"
    by (simp add: bare_os_def)
  then have n: "\<forall>(n, v) \<in> set (environ bare_os). \<not> startswith n ''UA_''"
    by simp
  from parse_config_defaults_only_raises [OF f n] f e show ?thesis
    by blast
qed

text \<open>
  Claim C6: \<open>parse_config\<close> never raises \<open>ConfigAbsentError\<close>, whatever the files,
  their contents, the parser, the environment and the path argument are.
\<close>

theorem parse_config_never_ConfigAbsentError:
  "parse_config lower upper yaml_load os config_path \<noteq> Inl ConfigAbsentError"
proof
  assume a: "parse_config lower upper yaml_load os config_path = Inl ConfigAbsentError"
  show False
  proof (cases "merge_file yaml_load (files os) (config_file_path os config_path) CONFIG_DEFAULTS")
    case (Inl e)
    with a have "e = ConfigAbsentError" by (simp add: parse_config_def)
    with merge_file_error [OF Inl] show False by simp
  next
    case (Inr d)
    with a have "normalize upper os (update_dict d (env_keys lower (environ os))) = Inl ConfigAbsentError"
      by (simp add: parse_config_def)
    from normalize_error [OF this] show False by simp
  qed
qed

text \<open>
  Claim C7: the mapping \<open>parse_config\<close> returns contains every key of the default
  set \<open>{sso_auth_url, service_url, data_dir, log_level}\<close>, whatever the file and the
  environment hold.
\<close>

theorem parse_config_keeps_default_keys:
  assumes "parse_config lower upper yaml_load os config_path = Inr c"
  shows "fst ` set CONFIG_DEFAULTS =
           {PStr ''sso_auth_url'', PStr ''service_url'', PStr ''data_dir'', PStr ''log_level''}
         \<and> fst ` set CONFIG_DEFAULTS \<subseteq> fst ` set c"
proof
  show "fst ` set CONFIG_DEFAULTS =
           {PStr ''sso_auth_url'', PStr ''service_url'', PStr ''data_dir'', PStr ''log_level''}"
    by (simp add: CONFIG_DEFAULTS_def)
next
  from assms obtain d where
    m: "merge_file yaml_load (files os) (config_file_path os config_path) CONFIG_DEFAULTS = Inr d"
    and n: "normalize upper os (update_dict d (env_keys lower (environ os))) = Inr c"
    by (auto simp: parse_config_def split: sum.splits)
  have "fst ` set CONFIG_DEFAULTS \<subseteq> fst ` set d"
    using m by (rule keys_merge_file)
  also have "\<dots> \<subseteq> fst ` set (update_dict d (env_keys lower (environ os)))"
    by (rule keys_update_dict)
  also have "\<dots> \<subseteq> fst ` set c"
    using n by (rule keys_normalize)
  finally show "fst ` set CONFIG_DEFAULTS \<subseteq> fst ` set c" .
qed

theorem parse_config_keeps_default_keys_witness:
  "parse_config ascii_lower ascii_upper sample_yaml_load sample_os None = Inr sample_cfg
   \<and> fst ` set CONFIG_DEFAULTS =
       {PStr ''sso_auth_url'', PStr ''service_url'', PStr ''data_dir'', PStr ''log_level''}
   \<and> fst ` set CONFIG_DEFAULTS \<subseteq> fst ` set sample_cfg"
  by (rule conjI [OF parse_config_sample parse_config_keeps_default_keys [OF parse_config_sample]])

text \<open>
  Claim C3 says that every \<^verbatim>\<open>UA_\<close> variable sets its key to the variable's raw value.
  Two things stand against it. The values of \<open>log_level\<close> and \<open>data_dir\<close> are
  rewritten after the merge, so \<^verbatim>\<open>UA_LOG_LEVEL=debug\<close> resolves to \<open>DEBUG\<close>; and two
  variables whose names differ in case only set the same key, of which the later one
  wins.
\<close>

theorem environment_value_not_raw:
  "environ clash_os = [(''UA_LOG_LEVEL'', ''debug''), (''UA_FOO'', ''one''), (''UA_foo'', ''two'')]
   \<and> startswith ''UA_LOG_LEVEL'' ''UA_''
   \<and> startswith ''UA_FOO'' ''UA_''
   \<and> parse_config ascii_lower ascii_upper sample_yaml_load clash_os None = Inr clash_cfg
   \<and> map_of clash_cfg (env_key ascii_lower ''UA_LOG_LEVEL'') = Some (PStr ''DEBUG'')
   \<and> map_of clash_cfg (env_key ascii_lower ''UA_LOG_LEVEL'') \<noteq> Some (PStr ''debug'')
   \<and> map_of clash_cfg (env_key ascii_lower ''UA_FOO'') = Some (PStr ''two'')
   \<and> map_of clash_cfg (env_key ascii_lower ''UA_FOO'') \<noteq> Some (PStr ''one'')"
  using parse_config_clash
  by (simp add: clash_os_def clash_cfg_def bare_os_def env_key_def string_defs)

text \<open>
  Claim C3 as amended, for a run of \<open>parse_config\<close> that returns. A \<^verbatim>\<open>UA_\<close>
  variable after which no other \<^verbatim>\<open>UA_\<close> variable sets the same key decides that key,
  whatever the file and the defaults say. A key no variable sets holds what the file
  assigns to it, when the file exists and is a mapping that has the key, whatever the
  defaults say; and it holds its default when there is no file or the file's mapping
  has not the key. In each case the value is the layer's own, except that the value of
  \<open>log_level\<close> is uppercased and the value of \<open>data_dir\<close> tilde-expanded.
\<close>

theorem environment_overrides:
  assumes "parse_config lower upper yaml_load os config_path = Inr c"
  shows
    "(environ os = pre @ (name, v) # post \<and> startswith name ''UA_''
        \<and> (\<forall>(n, w) \<in> set post. startswith n ''UA_'' \<longrightarrow> env_key lower n \<noteq> env_key lower name)
      \<longrightarrow> map_of c (env_key lower name) =
           Some (if env_key lower name = PStr ''log_level'' then PStr (upper v)
                 else if env_key lower name = PStr ''data_dir'' then PStr (expanduser_str os v)
                 else PStr v))
     \<and> (os_path_exists (files os) (config_file_path os config_path)
        \<and> load_file (files os) (config_file_path os config_path) = Inr content
        \<and> yaml_load content = Some (PDict doc) \<and> distinct (map fst doc)
        \<and> map_of doc k = Some x
        \<and> (\<forall>(n, w) \<in> set (environ os). startswith n ''UA_'' \<longrightarrow> env_key lower n \<noteq> k)
      \<longrightarrow> (\<exists>y. (if k = PStr ''log_level'' then upper_method upper x
                else if k = PStr ''data_dir'' then expanduser os x else Inr x) = Inr y
               \<and> map_of c k = Some y))
     \<and> (map_of CONFIG_DEFAULTS k = Some x
        \<and> (\<forall>(n, w) \<in> set (environ os). startswith n ''UA_'' \<longrightarrow> env_key lower n \<noteq> k)
        \<and> (\<not> os_path_exists (files os) (config_file_path os config_path)
            \<or> load_file (files os) (config_file_path os config_path) = Inr content
              \<and> yaml_load content = Some (PDict doc) \<and> distinct (map fst doc)
              \<and> map_of doc k = None)
      \<longrightarrow> (\<exists>y. (if k = PStr ''log_level'' then upper_method upper x
                else if k = PStr ''data_dir'' then expanduser os x else Inr x) = Inr y
               \<and> map_of c k = Some y))"
proof -
  from assms obtain d where
    m: "merge_file yaml_load (files os) (config_file_path os config_path) CONFIG_DEFAULTS = Inr d"
    and n: "normalize upper os (update_dict d (env_keys lower (environ os))) = Inr c"
    by (auto simp: parse_config_def split: sum.splits)
  have env: "map_of c (env_key lower name) =
           Some (if env_key lower name = PStr ''log_level'' then PStr (upper v)
                 else if env_key lower name = PStr ''data_dir'' then PStr (expanduser_str os v)
                 else PStr v)"
    if e: "environ os = pre @ (name, v) # post" and s: "startswith name ''UA_''"
      and p: "\<forall>(n, w) \<in> set post. startswith n ''UA_'' \<longrightarrow> env_key lower n \<noteq> env_key lower name"
  proof -
    have "map_of (env_keys lower (environ os)) (env_key lower name) = Some (PStr v)"
      using e s p by (rule map_of_env_keys_last)
    with distinct_env_keys
    have "map_of (update_dict d (env_keys lower (environ os))) (env_key lower name) =
            Some (PStr v)"
      by (rule update_dict_hit)
    from normalize_value [OF n this] show ?thesis by auto
  qed
  have layer: "\<exists>y. (if k = PStr ''log_level'' then upper_method upper x
                else if k = PStr ''data_dir'' then expanduser os x else Inr x) = Inr y
               \<and> map_of c k = Some y"
    if "map_of d k = Some x"
      and "\<forall>(n, w) \<in> set (environ os). startswith n ''UA_'' \<longrightarrow> env_key lower n \<noteq> k"
  proof -
    from that have "map_of (update_dict d (env_keys lower (environ os))) k = Some x"
      by (simp add: env_keys_miss)
    with n show ?thesis by (rule normalize_value)
  qed
  have merged: "d = update_dict CONFIG_DEFAULTS doc"
    if "os_path_exists (files os) (config_file_path os config_path)"
      and "load_file (files os) (config_file_path os config_path) = Inr content"
      and "yaml_load content = Some (PDict doc)"
    using that m by (simp add: merge_file_dict)
  have absent: "d = CONFIG_DEFAULTS"
    if "\<not> os_path_exists (files os) (config_file_path os config_path)"
    using that m by (simp add: merge_file_absent)
  show ?thesis
  proof (intro conjI impI)
    assume "environ os = pre @ (name, v) # post \<and> startswith name ''UA_''
        \<and> (\<forall>(n, w) \<in> set post. startswith n ''UA_'' \<longrightarrow> env_key lower n \<noteq> env_key lower name)"
    then show "map_of c (env_key lower name) =
           Some (if env_key lower name = PStr ''log_level'' then PStr (upper v)
                 else if env_key lower name = PStr ''data_dir'' then PStr (expanduser_str os v)
                 else PStr v)"
      using env by blast
  next
    assume a: "os_path_exists (files os) (config_file_path os config_path)
        \<and> load_file (files os) (config_file_path os config_path) = Inr content
        \<and> yaml_load content = Some (PDict doc) \<and> distinct (map fst doc)
        \<and> map_of doc k = Some x
        \<and> (\<forall>(n, w) \<in> set (environ os). startswith n ''UA_'' \<longrightarrow> env_key lower n \<noteq> k)"
    then have "d = update_dict CONFIG_DEFAULTS doc" using merged by blast
    with a have "map_of d k = Some x" by (simp add: map_of_update_dict)
    with a show "\<exists>y. (if k = PStr ''log_level'' then upper_method upper x
                else if k = PStr ''data_dir'' then expanduser os x else Inr x) = Inr y
               \<and> map_of c k = Some y"
      using layer by blast
  next
    assume a: "map_of CONFIG_DEFAULTS k = Some x
        \<and> (\<forall>(n, w) \<in> set (environ os). startswith n ''UA_'' \<longrightarrow> env_key lower n \<noteq> k)
        \<and> (\<not> os_path_exists (files os) (config_file_path os config_path)
            \<or> load_file (files os) (config_file_path os config_path) = Inr content
              \<and> yaml_load content = Some (PDict doc) \<and> distinct (map fst doc)
              \<and> map_of doc k = None)"
    have "map_of d k = Some x"
    proof (cases "os_path_exists (files os) (config_file_path os config_path)")
      case False
      with a absent show ?thesis by simp
    next
      case True
      with a have f: "load_file (files os) (config_file_path os config_path) = Inr content"
        "yaml_load content = Some (PDict doc)" "distinct (map fst doc)" "map_of doc k = None"
        by simp_all
      from merged [OF True f(1,2)] f(3,4) a show ?thesis
        by (simp add: map_of_update_dict)
    qed
    with a show "\<exists>y. (if k = PStr ''log_level'' then upper_method upper x
                else if k = PStr ''data_dir'' then expanduser os x else Inr x) = Inr y
               \<and> map_of c k = Some y"
      using layer by blast
  qed
qed

theorem environment_overrides_witness:
  "parse_config ascii_lower ascii_upper sample_yaml_load layered_os None = Inr layered_cfg
   \<and> map_of layered_cfg (env_key ascii_lower ''UA_SERVICE_URL'') =
       Some (PStr ''https://example.test'')
   \<and> map_of layered_cfg (PStr ''log_level'') = Some (PStr ''INFO'')
   \<and> map_of layered_cfg (PStr ''data_dir'') = Some (PStr ''/tmp/ua'')
   \<and> map_of layered_cfg (PStr ''sso_auth_url'') = Some (PStr ''https://login.ubuntu.com'')"
proof -
  have e: "environ layered_os =
      [(''HOME'', ''/root'')] @ (''UA_SERVICE_URL'', ''https://example.test'') # []"
    by (simp add: layered_os_def)
  have s: "startswith ''UA_SERVICE_URL'' ''UA_''"
    by (simp add: startswith_def)
  have p: "\<forall>(n, w) \<in> set ([] :: (string \<times> string) list).
      startswith n ''UA_'' \<longrightarrow> env_key ascii_lower n \<noteq> env_key ascii_lower ''UA_SERVICE_URL''"
    by simp
  have d: "distinct (map fst [(PStr ''log_level'', PStr ''info''),
      (PStr ''data_dir'', PStr ''/tmp/ua'')])"
    by simp
  have u: "\<forall>(n, w) \<in> set (environ layered_os).
      startswith n ''UA_'' \<longrightarrow> env_key ascii_lower n \<noteq> k"
    if "k \<noteq> PStr ''service_url''" for k
    using that by (auto simp: layered_os_def env_key_def string_defs)
  have "map_of layered_cfg (env_key ascii_lower ''UA_SERVICE_URL'') =
       Some (PStr ''https://example.test'')"
    using environment_overrides [where pre = "[(''HOME'', ''/root'')]"
        and name = "''UA_SERVICE_URL''" and v = "''https://example.test''" and post = "[]",
        OF parse_config_layered, THEN conjunct1] e s p
    by (simp add: env_key_def string_defs)
  moreover have "map_of layered_cfg (PStr ''log_level'') = Some (PStr ''INFO'')"
    using environment_overrides [where k = "PStr ''log_level''"
        and x = "PStr ''info''"
        and content = "''{log_level: info, data_dir: /tmp/ua}''"
        and doc = "[(PStr ''log_level'', PStr ''info''), (PStr ''data_dir'', PStr ''/tmp/ua'')]",
        OF parse_config_layered, THEN conjunct2, THEN conjunct1]
      layered_file d u [of "PStr ''log_level''"]
    by (simp add: string_defs)
  moreover have "map_of layered_cfg (PStr ''data_dir'') = Some (PStr ''/tmp/ua'')"
    using environment_overrides [where k = "PStr ''data_dir''"
        and x = "PStr ''/tmp/ua''"
        and content = "''{log_level: info, data_dir: /tmp/ua}''"
        and doc = "[(PStr ''log_level'', PStr ''info''), (PStr ''data_dir'', PStr ''/tmp/ua'')]",
        OF parse_config_layered, THEN conjunct2, THEN conjunct1]
      layered_file d u [of "PStr ''data_dir''"]
    by (simp add: expanduser_str_def startswith_def)
  moreover have "map_of layered_cfg (PStr ''sso_auth_url'') =
      Some (PStr ''https://login.ubuntu.com'')"
    using environment_overrides [where k = "PStr ''sso_auth_url''"
        and x = "PStr ''https://login.ubuntu.com''"
        and content = "''{log_level: info, data_dir: /tmp/ua}''"
        and doc = "[(PStr ''log_level'', PStr ''info''), (PStr ''data_dir'', PStr ''/tmp/ua'')]",
        OF parse_config_layered, THEN conjunct2, THEN conjunct2]
      layered_file d u [of "PStr ''sso_auth_url''"]
    by (simp add: CONFIG_DEFAULTS_def BASE_AUTH_URL_def)
  ultimately show ?thesis
    using parse_config_layered by blast
qed

section \<open>Facts about the cache store\<close>

lemma write_cache_returns:
  assumes "write_cache json_dumps self key content fs = (Inr (), fs')"
  obtains filepath body where
    "data_path self key = Inr (PStr filepath)"
    "content_text json_dumps content = Inr body"
    "fs' filepath = Some (File body)"
proof -
  from assms obtain fs1 filepath body where
    p: "data_path self key = Inr (PStr filepath)"
    and t: "content_text json_dumps content = Inr body"
    and w: "write_file fs1 filepath body = Inr fs'"
    unfolding write_cache_def
    by (auto split: sum.splits pyval.splits if_splits)
  from w have "fs' = fs1(filepath \<mapsto> File body)"
    by (auto simp: write_file_def split: option.splits node.splits)
  then have "fs' filepath = Some (File body)" by simp
  with p t show ?thesis by (rule that)
qed

lemma read_cache_file:
  assumes "data_path self key = Inr (PStr p)" and "fs p = Some (File content)"
  shows "read_cache json_loads self key fs =
           (Inr (if truthy (maybe_parse_json json_loads content)
                 then maybe_parse_json json_loads content else PStr content), fs)"
  using assms by (simp add: read_cache_def os_path_exists_def load_file_def Let_def)

lemma data_path_sample:
  "data_path (new_instance CONFIG_DEFAULTS) (Some ''accounts'') =
     Inr (PStr ''/var/lib/ubuntu-advantage/accounts.json'')"
  by (simp add: data_path_def new_instance_def getitem_def CONFIG_DEFAULTS_def data_paths_def
      os_path_join_def startswith_def)

lemma write_cache_sample:
  "write_cache sample_json_dumps (new_instance CONFIG_DEFAULTS) (Some ''accounts'')
     (PList [PInt 1, PInt 2]) Map.empty = (Inr (), sample_store)"
  by (simp add: write_cache_def data_dir_def data_path_def os_path_exists_def os_makedirs_def
      content_text_def write_file_def sample_store_def sample_json_defs default_instance_defs)

lemma data_paths_distinct: "distinct (map fst data_paths)"
  by (simp add: data_paths_def)

lemma data_paths_nonempty: "(k, filename) \<in> set data_paths \<Longrightarrow> k \<noteq> []"
  by (auto simp: data_paths_def)

lemma data_paths_relative:
  "(k, filename) \<in> set data_paths \<Longrightarrow> \<not> startswith filename ''/''"
  by (auto simp: data_paths_def startswith_def)

lemma data_paths_keys_relative: "k \<in> fst ` set data_paths \<Longrightarrow> \<not> prefix ''/'' k"
  by (auto simp: data_paths_def)

lemma write_cache_token:
  "write_cache sample_json_dumps (new_instance CONFIG_DEFAULTS) (Some ''machine-token'')
     (PDict [(PStr ''machineToken'', PStr ''t0k3n'')]) Map.empty = (Inr (), token_store)"
  by (simp add: write_cache_def data_dir_def data_path_def os_path_exists_def os_makedirs_def
      content_text_def write_file_def token_store_def sample_json_defs default_instance_defs)

lemma data_path_token:
  "data_path (new_instance CONFIG_DEFAULTS) (Some ''machine-token'') =
     Inr (PStr ''/var/lib/ubuntu-advantage/machine-token.json'')"
  by (simp add: data_path_def default_instance_defs)

lemma read_cache_truthy:
  assumes "data_path self key = Inr (PStr p)" and "fs p = Some (File content)"
    and "content \<noteq> []"
  obtains v where "read_cache json_loads self key fs = (Inr v, fs)" and "truthy v"
  using assms by (simp add: read_cache_file)

lemma written_text_nonempty:
  assumes "content_text json_dumps v = Inr body" and "truthy v"
    and "is_string v \<or> json_dumps v \<noteq> Some []"
  shows "body \<noteq> []"
  using assms by (cases v) (auto simp: content_text_def split: option.splits)

section \<open>The cache store: the claims\<close>

text \<open>
  Claim C9: on an instance whose configuration has no \<open>contract_url\<close> key, the
  property \<open>contract_url\<close> raises KeyError. The default set has no such key, and
  neither has what the sample machine resolves.
\<close>

theorem contract_url_KeyError:
  assumes "map_of (cfg self) (PStr ''contract_url'') = None"
  shows "contract_url self = Inl KeyError"
  using assms by (simp add: contract_url_def getitem_def)

theorem contract_url_KeyError_witness:
  "map_of (cfg (new_instance CONFIG_DEFAULTS)) (PStr ''contract_url'') = None
   \<and> contract_url (new_instance CONFIG_DEFAULTS) = Inl KeyError
   \<and> init ascii_lower ascii_upper sample_yaml_load sample_os None =
       Inr (new_instance sample_cfg)
   \<and> contract_url (new_instance sample_cfg) = Inl KeyError"
proof -
  have d: "map_of (cfg (new_instance CONFIG_DEFAULTS)) (PStr ''contract_url'') = None"
    by (simp add: new_instance_def CONFIG_DEFAULTS_def)
  have s: "map_of (cfg (new_instance sample_cfg)) (PStr ''contract_url'') = None"
    by (simp add: new_instance_def sample_cfg_def)
  have i: "init ascii_lower ascii_upper sample_yaml_load sample_os None =
      Inr (new_instance sample_cfg)"
    by (simp add: init_def parse_config_sample)
  show ?thesis
    using d i contract_url_KeyError [OF d] contract_url_KeyError [OF s] by simp
qed

text \<open>
  Claim C4 says that a key outside the table is joined to the data directory as a
  relative file name. \<^verbatim>\<open>os.path.join\<close> drops the directory when the key starts with
  a slash: with the default directory, the key \<^verbatim>\<open>/etc/passwd\<close> resolves to
  \<^verbatim>\<open>/etc/passwd\<close>, a path outside the data directory.
\<close>

theorem data_path_absolute_key:
  "map_of (cfg (new_instance CONFIG_DEFAULTS)) (PStr ''data_dir'') =
     Some (PStr ''/var/lib/ubuntu-advantage'')
   \<and> ''/etc/passwd'' \<noteq> [] \<and> ''/etc/passwd'' \<notin> fst ` set data_paths
   \<and> data_path (new_instance CONFIG_DEFAULTS) (Some ''/etc/passwd'') = Inr (PStr ''/etc/passwd'')
   \<and> \<not> prefix ''/var/lib/ubuntu-advantage'' ''/etc/passwd''"
  by (simp add: data_path_def default_instance_defs)

text \<open>
  Claim C4 as amended: \<open>data_path\<close> depends on the key and the configured
  \<open>data_dir\<close> only and returns for every key. For an absent or empty key it returns
  the directory itself. For a key of the table it returns the table's file name, and
  for any other key that does not start with a slash the key itself, appended to the
  directory with one slash between them (none when the directory is empty or ends with
  a slash). For a key that starts with a slash it returns the key alone. With the
  default directory, \<open>machine-token\<close> and \<open>unknown-key\<close> resolve as the
  specification's example says.
\<close>

theorem data_path_spec:
  assumes "map_of (cfg self) (PStr ''data_dir'') = Some (PStr d)"
  shows "data_path self None = Inr (PStr d)
    \<and> data_path self (Some []) = Inr (PStr d)
    \<and> (\<forall>k filename. (k, filename) \<in> set data_paths \<longrightarrow>
          data_path self (Some k) =
            Inr (PStr (if d = [] \<or> last d = CHR ''/'' then d @ filename
                       else d @ ''/'' @ filename)))
    \<and> (\<forall>k. k \<noteq> [] \<and> k \<notin> fst ` set data_paths \<and> \<not> startswith k ''/'' \<longrightarrow>
          data_path self (Some k) =
            Inr (PStr (if d = [] \<or> last d = CHR ''/'' then d @ k else d @ ''/'' @ k)))
    \<and> (\<forall>k. startswith k ''/'' \<longrightarrow> data_path self (Some k) = Inr (PStr k))
    \<and> data_path (new_instance CONFIG_DEFAULTS) (Some ''machine-token'') =
          Inr (PStr ''/var/lib/ubuntu-advantage/machine-token.json'')
    \<and> data_path (new_instance CONFIG_DEFAULTS) (Some ''unknown-key'') =
          Inr (PStr ''/var/lib/ubuntu-advantage/unknown-key'')"
proof (intro conjI allI impI)
  show "data_path self None = Inr (PStr d)"
    using assms by (simp add: data_path_def getitem_def)
  show "data_path self (Some []) = Inr (PStr d)"
    using assms by (simp add: data_path_def getitem_def)
next
  fix k filename
  assume m: "(k, filename) \<in> set data_paths"
  then have "map_of data_paths k = Some filename"
    using data_paths_distinct by (rule map_of_is_SomeI [rotated])
  with assms data_paths_nonempty [OF m] data_paths_relative [OF m]
  show "data_path self (Some k) =
          Inr (PStr (if d = [] \<or> last d = CHR ''/'' then d @ filename
                     else d @ ''/'' @ filename))"
    by (simp add: data_path_def getitem_def os_path_join_def)
next
  fix k :: string
  assume "k \<noteq> [] \<and> k \<notin> fst ` set data_paths \<and> \<not> startswith k ''/''"
  then have "k \<noteq> []" and "map_of data_paths k = None" and "\<not> startswith k ''/''"
    by (simp_all add: map_of_eq_None_iff)
  with assms show "data_path self (Some k) =
      Inr (PStr (if d = [] \<or> last d = CHR ''/'' then d @ k else d @ ''/'' @ k))"
    by (simp add: data_path_def getitem_def os_path_join_def)
next
  fix k :: string
  assume s: "startswith k ''/''"
  then have "k \<noteq> []" and "map_of data_paths k = None"
    using data_paths_keys_relative [of k] by (auto simp: map_of_eq_None_iff startswith_def)
  with assms s show "data_path self (Some k) = Inr (PStr k)"
    by (simp add: data_path_def getitem_def os_path_join_def)
next
  show "data_path (new_instance CONFIG_DEFAULTS) (Some ''machine-token'') =
          Inr (PStr ''/var/lib/ubuntu-advantage/machine-token.json'')"
    by (simp add: data_path_def default_instance_defs)
  show "data_path (new_instance CONFIG_DEFAULTS) (Some ''unknown-key'') =
          Inr (PStr ''/var/lib/ubuntu-advantage/unknown-key'')"
    by (simp add: data_path_def default_instance_defs)
qed

theorem data_path_spec_witness:
  "map_of (cfg (new_instance sample_cfg)) (PStr ''data_dir'') =
     Some (PStr ''/var/lib/ubuntu-advantage'')
   \<and> data_path (new_instance sample_cfg) None = Inr (PStr ''/var/lib/ubuntu-advantage'')
   \<and> data_path (new_instance sample_cfg) (Some []) = Inr (PStr ''/var/lib/ubuntu-advantage'')
   \<and> data_path (new_instance sample_cfg) (Some ''macaroon'') =
       Inr (PStr ''/var/lib/ubuntu-advantage/sso-macaroon.json'')
   \<and> data_path (new_instance sample_cfg) (Some ''unknown-key'') =
       Inr (PStr ''/var/lib/ubuntu-advantage/unknown-key'')
   \<and> data_path (new_instance sample_cfg) (Some ''/etc/passwd'') = Inr (PStr ''/etc/passwd'')"
proof -
  have h: "map_of (cfg (new_instance sample_cfg)) (PStr ''data_dir'') =
             Some (PStr ''/var/lib/ubuntu-advantage'')"
    by (simp add: new_instance_def sample_cfg_def)
  have m: "(''macaroon'', ''sso-macaroon.json'') \<in> set data_paths"
    by (simp add: data_paths_def)
  have u: "''unknown-key'' \<noteq> [] \<and> ''unknown-key'' \<notin> fst ` set data_paths
      \<and> \<not> startswith ''unknown-key'' ''/''"
    by (simp add: data_paths_def startswith_def)
  have a: "startswith ''/etc/passwd'' ''/''"
    by (simp add: startswith_def)
  from data_path_spec [OF h] have
    "data_path (new_instance sample_cfg) None = Inr (PStr ''/var/lib/ubuntu-advantage'')"
    "data_path (new_instance sample_cfg) (Some []) = Inr (PStr ''/var/lib/ubuntu-advantage'')"
    "data_path (new_instance sample_cfg) (Some ''macaroon'') =
       Inr (PStr (if ''/var/lib/ubuntu-advantage'' = [] \<or>
                     last ''/var/lib/ubuntu-advantage'' = CHR ''/''
                  then ''/var/lib/ubuntu-advantage'' @ ''sso-macaroon.json''
                  else ''/var/lib/ubuntu-advantage'' @ ''/'' @ ''sso-macaroon.json''))"
    "data_path (new_instance sample_cfg) (Some ''unknown-key'') =
       Inr (PStr (if ''/var/lib/ubuntu-advantage'' = [] \<or>
                     last ''/var/lib/ubuntu-advantage'' = CHR ''/''
                  then ''/var/lib/ubuntu-advantage'' @ ''unknown-key''
                  else ''/var/lib/ubuntu-advantage'' @ ''/'' @ ''unknown-key''))"
    "data_path (new_instance sample_cfg) (Some ''/etc/passwd'') = Inr (PStr ''/etc/passwd'')"
    using m u a by blast+
  with h show ?thesis
    by simp
qed

text \<open>
  Claim C5: when the path a key resolves to does not exist, \<open>read_cache\<close> returns
  None, raises nothing, and hands the file system back as it was.
\<close>

theorem read_cache_absent:
  assumes "data_path self key = Inr (PStr p)" and "fs p = None"
  shows "read_cache json_loads self key fs = (Inr PNone, fs)"
  using assms by (simp add: read_cache_def os_path_exists_def)

theorem read_cache_absent_witness:
  "data_path (new_instance CONFIG_DEFAULTS) (Some ''accounts'') =
     Inr (PStr ''/var/lib/ubuntu-advantage/accounts.json'')
   \<and> (Map.empty :: filesystem) ''/var/lib/ubuntu-advantage/accounts.json'' = None
   \<and> read_cache sample_json_loads (new_instance CONFIG_DEFAULTS) (Some ''accounts'') Map.empty =
       (Inr PNone, Map.empty)"
proof -
  have e: "(Map.empty :: filesystem) ''/var/lib/ubuntu-advantage/accounts.json'' = None"
    by simp
  from read_cache_absent [OF data_path_sample e] data_path_sample e show ?thesis
    by blast
qed

text \<open>
  Claim C10: when the cache file exists and its content is JSON for a falsy value,
  \<open>read_cache\<close> returns the text of the file, not the parsed value. The witness runs
  the six texts \<^verbatim>\<open>0\<close>, \<^verbatim>\<open>false\<close>, \<^verbatim>\<open>null\<close>, \<^verbatim>\<open>{}\<close>, \<^verbatim>\<open>[]\<close> and the
  empty JSON string.
\<close>

theorem read_cache_falsy_json_returns_text:
  assumes "data_path self key = Inr (PStr p)" and "fs p = Some (File content)"
    and "json_loads content = Some v" and "\<not> truthy v"
  shows "read_cache json_loads self key fs = (Inr (PStr content), fs)"
  using assms by (simp add: read_cache_file maybe_parse_json_def)

theorem read_cache_falsy_json_returns_text_witness:
  "read_cache sample_json_loads (new_instance CONFIG_DEFAULTS) (Some ''accounts'')
     [''/var/lib/ubuntu-advantage/accounts.json'' \<mapsto> File ''0''] =
     (Inr (PStr ''0''), [''/var/lib/ubuntu-advantage/accounts.json'' \<mapsto> File ''0''])
   \<and> read_cache sample_json_loads (new_instance CONFIG_DEFAULTS) (Some ''accounts'')
     [''/var/lib/ubuntu-advantage/accounts.json'' \<mapsto> File ''false''] =
     (Inr (PStr ''false''), [''/var/lib/ubuntu-advantage/accounts.json'' \<mapsto> File ''false''])
   \<and> read_cache sample_json_loads (new_instance CONFIG_DEFAULTS) (Some ''accounts'')
     [''/var/lib/ubuntu-advantage/accounts.json'' \<mapsto> File ''null''] =
     (Inr (PStr ''null''), [''/var/lib/ubuntu-advantage/accounts.json'' \<mapsto> File ''null''])
   \<and> read_cache sample_json_loads (new_instance CONFIG_DEFAULTS) (Some ''accounts'')
     [''/var/lib/ubuntu-advantage/accounts.json'' \<mapsto> File ''{}''] =
     (Inr (PStr ''{}''), [''/var/lib/ubuntu-advantage/accounts.json'' \<mapsto> File ''{}''])
   \<and> read_cache sample_json_loads (new_instance CONFIG_DEFAULTS) (Some ''accounts'')
     [''/var/lib/ubuntu-advantage/accounts.json'' \<mapsto> File ''[]''] =
     (Inr (PStr ''[]''), [''/var/lib/ubuntu-advantage/accounts.json'' \<mapsto> File ''[]''])
   \<and> read_cache sample_json_loads (new_instance CONFIG_DEFAULTS) (Some ''accounts'')
     [''/var/lib/ubuntu-advantage/accounts.json'' \<mapsto> File (quoted [])] =
     (Inr (PStr (quoted [])), [''/var/lib/ubuntu-advantage/accounts.json'' \<mapsto> File (quoted [])])"
proof -
  have r: "read_cache sample_json_loads (new_instance CONFIG_DEFAULTS) (Some ''accounts'')
             [''/var/lib/ubuntu-advantage/accounts.json'' \<mapsto> File t] =
           (Inr (PStr t), [''/var/lib/ubuntu-advantage/accounts.json'' \<mapsto> File t])"
    if "sample_json_loads t = Some v" and "\<not> truthy v" for t v
    using that
    by (intro read_cache_falsy_json_returns_text
          [where json_loads = sample_json_loads and v = v, OF data_path_sample]) simp_all
  have l: "sample_json_loads ''0'' = Some (PInt 0)"
    "sample_json_loads ''false'' = Some (PBool False)"
    "sample_json_loads ''null'' = Some PNone"
    "sample_json_loads ''{}'' = Some (PDict [])"
    "sample_json_loads ''[]'' = Some (PList [])"
    "sample_json_loads (quoted []) = Some (PStr [])"
    by (simp_all add: sample_json_defs)
  show ?thesis
    by (intro conjI r [OF l(1)] r [OF l(2)] r [OF l(3)] r [OF l(4)] r [OF l(5)] r [OF l(6)])
      simp_all
qed

text \<open>
  Claim C2 says that \<open>read_cache\<close> after \<open>write_cache\<close> gives back every
  JSON-serialisable structured value. It does not for a falsy one: the empty object is
  written as \<^verbatim>\<open>{}\<close>, parses to a falsy value, and the read returns the text.
\<close>

theorem write_then_read_cache_empty_object:
  "sample_json_dumps (PDict []) = Some ''{}''
   \<and> sample_json_loads ''{}'' = Some (PDict [])
   \<and> fst (write_cache sample_json_dumps (new_instance CONFIG_DEFAULTS) (Some ''accounts'')
            (PDict []) Map.empty) = Inr ()
   \<and> fst (read_cache sample_json_loads (new_instance CONFIG_DEFAULTS) (Some ''accounts'')
            (snd (write_cache sample_json_dumps (new_instance CONFIG_DEFAULTS)
                    (Some ''accounts'') (PDict []) Map.empty)))
       = Inr (PStr ''{}'')
   \<and> PStr ''{}'' \<noteq> PDict []"
  by (simp add: write_cache_def read_cache_def data_dir_def data_path_def os_path_exists_def
      os_makedirs_def content_text_def write_file_def load_file_def maybe_parse_json_def
      sample_json_defs default_instance_defs)

text \<open>
  Claim C2 as amended: for a truthy value that is not a string and that the JSON codec
  takes to a text and back, a \<open>write_cache\<close> that returns is followed by a
  \<open>read_cache\<close> of the same key that returns the value, on the store the write left.
\<close>

theorem write_then_read_cache:
  assumes "write_cache json_dumps self key obj fs = (Inr (), fs')"
    and "\<not> is_string obj" and "truthy obj"
    and "json_dumps obj = Some body" and "json_loads body = Some obj"
  shows "read_cache json_loads self key fs' = (Inr obj, fs')"
proof -
  from assms(1) obtain filepath body' where
    p: "data_path self key = Inr (PStr filepath)"
    and t: "content_text json_dumps obj = Inr body'"
    and f: "fs' filepath = Some (File body')"
    by (rule write_cache_returns)
  from t assms(2,4) have "body' = body"
    by (cases obj) (simp_all add: content_text_def)
  with f have "fs' filepath = Some (File body)" by simp
  with p assms(3,5) show ?thesis
    by (simp add: read_cache_file maybe_parse_json_def)
qed

theorem write_then_read_cache_witness:
  "write_cache sample_json_dumps (new_instance CONFIG_DEFAULTS) (Some ''accounts'')
     (PList [PInt 1, PInt 2]) Map.empty = (Inr (), sample_store)
   \<and> sample_json_dumps (PList [PInt 1, PInt 2]) = Some ''[1, 2]''
   \<and> sample_json_loads ''[1, 2]'' = Some (PList [PInt 1, PInt 2])
   \<and> read_cache sample_json_loads (new_instance CONFIG_DEFAULTS) (Some ''accounts'') sample_store =
       (Inr (PList [PInt 1, PInt 2]), sample_store)"
proof -
  have d: "sample_json_dumps (PList [PInt 1, PInt 2]) = Some ''[1, 2]''"
    by (simp add: sample_json_defs)
  have l: "sample_json_loads ''[1, 2]'' = Some (PList [PInt 1, PInt 2])"
    by (simp add: sample_json_defs)
  have "read_cache sample_json_loads (new_instance CONFIG_DEFAULTS) (Some ''accounts'')
          sample_store = (Inr (PList [PInt 1, PInt 2]), sample_store)"
    by (rule write_then_read_cache
          [where json_dumps = sample_json_dumps and json_loads = sample_json_loads,
            OF write_cache_sample _ _ d l]) simp_all
  with write_cache_sample d l show ?thesis by blast
qed

text \<open>
  Claim C8: \<open>is_attached\<close> is the truth value of \<open>machine_token\<close>; on a fresh
  instance it is false when the \<open>machine-token\<close> cache file does not exist; and it is
  true right after a \<open>write_cache\<close> of a truthy value under \<open>machine-token\<close> (a
  string, or a value whose JSON text is not empty).
\<close>

theorem is_attached_spec:
  "fst (is_attached json_loads self fs) =
     map_sum id truthy (fst (machine_token json_loads self fs))
   \<and> (data_path (new_instance c) (Some ''machine-token'') = Inr (PStr p) \<and> fs p = None \<longrightarrow>
        is_attached json_loads (new_instance c) fs = (Inr False, new_instance c, fs))
   \<and> (write_cache json_dumps self (Some ''machine-token'') v fs = (Inr (), fs') \<and> truthy v
        \<and> (is_string v \<or> json_dumps v \<noteq> Some []) \<longrightarrow>
        fst (is_attached json_loads self fs') = Inr True)"
proof (intro conjI impI)
  show "fst (is_attached json_loads self fs) =
          map_sum id truthy (fst (machine_token json_loads self fs))"
    by (simp add: is_attached_def split: prod.splits sum.splits)
next
  assume a: "data_path (new_instance c) (Some ''machine-token'') = Inr (PStr p) \<and> fs p = None"
  then have "read_cache json_loads (new_instance c) (Some ''machine-token'') fs = (Inr PNone, fs)"
    by (simp add: read_cache_def os_path_exists_def)
  then show "is_attached json_loads (new_instance c) fs = (Inr False, new_instance c, fs)"
    by (simp add: is_attached_def machine_token_def new_instance_def)
next
  assume a: "write_cache json_dumps self (Some ''machine-token'') v fs = (Inr (), fs') \<and> truthy v
        \<and> (is_string v \<or> json_dumps v \<noteq> Some [])"
  then obtain filepath body where
    p: "data_path self (Some ''machine-token'') = Inr (PStr filepath)"
    and t: "content_text json_dumps v = Inr body"
    and f: "fs' filepath = Some (File body)"
    by (blast elim: write_cache_returns)
  from a have "truthy v" and "is_string v \<or> json_dumps v \<noteq> Some []" by simp_all
  with t have "body \<noteq> []" by (rule written_text_nonempty)
  with p f obtain w where
    r: "read_cache json_loads self (Some ''machine-token'') fs' = (Inr w, fs')" and w: "truthy w"
    by (rule read_cache_truthy)
  show "fst (is_attached json_loads self fs') = Inr True"
    using r w by (simp add: is_attached_def machine_token_def)
qed

theorem is_attached_spec_witness:
  "data_path (new_instance CONFIG_DEFAULTS) (Some ''machine-token'') =
     Inr (PStr ''/var/lib/ubuntu-advantage/machine-token.json'')
   \<and> is_attached sample_json_loads (new_instance CONFIG_DEFAULTS) Map.empty =
       (Inr False, new_instance CONFIG_DEFAULTS, Map.empty)
   \<and> write_cache sample_json_dumps (new_instance CONFIG_DEFAULTS) (Some ''machine-token'')
       (PDict [(PStr ''machineToken'', PStr ''t0k3n'')]) Map.empty = (Inr (), token_store)
   \<and> fst (is_attached sample_json_loads (new_instance CONFIG_DEFAULTS) token_store) = Inr True"
proof -
  have d: "sample_json_dumps (PDict [(PStr ''machineToken'', PStr ''t0k3n'')]) \<noteq> Some []"
    by (simp add: sample_json_defs)
  note s = is_attached_spec [where json_loads = sample_json_loads
      and json_dumps = sample_json_dumps and self = "new_instance CONFIG_DEFAULTS"
      and c = CONFIG_DEFAULTS and fs = Map.empty and fs' = token_store
      and p = "''/var/lib/ubuntu-advantage/machine-token.json''"
      and v = "PDict [(PStr ''machineToken'', PStr ''t0k3n'')]"]
  from s data_path_token write_cache_token d show ?thesis
    by simp
qed

end
